theory Spec2Isabelle
  imports Main "HOL-Library.Word" "HOL-Library.Signed_Division"
begin

unbundle bit_operations_syntax

section \<open>Data model\<close>

text \<open>
  The Qt integer types are fixed-width machine words; a \<open>QByteArray\<close> is a list of
  bytes. Reading a byte array with the const \<open>operator[]\<close> outside \<open>0 ..< size()\<close> and
  taking the head of an empty \<open>QQueue\<close> are undefined in Qt; the model makes both an
  explicit error value.
\<close>

type_synonym quint8 = "8 word"
type_synonym quint16 = "16 word"
type_synonym quint64 = "64 word"
type_synonym QByteArray = "quint8 list"

datatype error = IndexOutOfRange nat | DequeueOnEmpty

definition byte_at :: "QByteArray \<Rightarrow> nat \<Rightarrow> error + quint8" where
  "byte_at a i = (if i < length a then Inr (a ! i) else Inl (IndexOutOfRange i))"

text \<open>\<open>append(w & 0xFF)\<close> and \<open>append((w >> 8) & 0xFF)\<close>: the two bytes of a 16-bit value.\<close>

definition lo_byte :: "quint16 \<Rightarrow> quint8" where
  "lo_byte w = ucast (w AND 0xFF)"

definition hi_byte :: "quint16 \<Rightarrow> quint8" where
  "hi_byte w = ucast (drop_bit 8 w AND 0xFF)"

text \<open>
  \<open>(static_cast<quint8>(hi) << 8) | static_cast<quint8>(lo)\<close> stored in a \<open>quint16\<close>.
\<close>

definition word_of_bytes :: "quint8 \<Rightarrow> quint8 \<Rightarrow> quint16" where
  "word_of_bytes hi lo = push_bit 8 (ucast hi) OR ucast lo"

section \<open>CRC16 (ModbusRTU.cpp and ModbusSlave.cpp, \<open>calculateCRC16\<close>)\<close>

text \<open>One pass of the inner loop body: test the least significant bit, shift, conditionally
  fold in the polynomial \<open>0xA001\<close>.\<close>

definition crc_round :: "quint16 \<Rightarrow> quint16" where
  "crc_round crc =
     (if crc AND 0x0001 \<noteq> 0 then drop_bit 1 crc XOR 0xA001 else drop_bit 1 crc)"

text \<open>The inner loop \<open>for (j = 0; j < 8; j++)\<close>, as \<open>j\<close> remaining rounds.\<close>

fun crc_rounds :: "nat \<Rightarrow> quint16 \<Rightarrow> quint16" where
  "crc_rounds 0 crc = crc"
| "crc_rounds (Suc j) crc = crc_rounds j (crc_round crc)"

text \<open>The outer loop body: \<open>crc ^= static_cast<quint8>(data[i])\<close>, then the eight rounds.\<close>

definition crc_byte :: "quint16 \<Rightarrow> quint8 \<Rightarrow> quint16" where
  "crc_byte crc b = crc_rounds 8 (crc XOR ucast b)"

definition calculateCRC16 :: "QByteArray \<Rightarrow> quint16" where
  "calculateCRC16 data = foldl crc_byte 0xFFFF data"

section \<open>Modbus RTU slave (ModbusSlave.cpp)\<close>

text \<open>Sequencing of fallible steps: the first error ends the computation.\<close>

definition bind_err :: "error + 'a \<Rightarrow> ('a \<Rightarrow> error + 'b) \<Rightarrow> error + 'b" where
  "bind_err m f = (case m of Inl e \<Rightarrow> Inl e | Inr x \<Rightarrow> f x)"

text \<open>Two consecutive frame bytes read as a big-endian 16-bit field.\<close>

definition read16 :: "QByteArray \<Rightarrow> nat \<Rightarrow> error + quint16" where
  "read16 a i =
     bind_err (byte_at a i) (\<lambda>hi.
     bind_err (byte_at a (i + 1)) (\<lambda>lo.
     Inr (word_of_bytes hi lo)))"

text \<open>\<open>QVector<quint16>::operator[]\<close>, with the out-of-range case explicit.\<close>

definition reg_at :: "quint16 list \<Rightarrow> nat \<Rightarrow> error + quint16" where
  "reg_at regs i = (if i < length regs then Inr (regs ! i) else Inl (IndexOutOfRange i))"

definition reg_set :: "quint16 list \<Rightarrow> nat \<Rightarrow> quint16 \<Rightarrow> error + quint16 list" where
  "reg_set regs i v = (if i < length regs then Inr (regs[i := v]) else Inl (IndexOutOfRange i))"

definition MODBUS_EXCEPTION_ILLEGAL_FUNCTION :: quint8 where
  "MODBUS_EXCEPTION_ILLEGAL_FUNCTION = 0x01"

definition MODBUS_EXCEPTION_ILLEGAL_DATA_ADDRESS :: quint8 where
  "MODBUS_EXCEPTION_ILLEGAL_DATA_ADDRESS = 0x02"

definition MODBUS_EXCEPTION_ILLEGAL_DATA_VALUE :: quint8 where
  "MODBUS_EXCEPTION_ILLEGAL_DATA_VALUE = 0x03"

definition MAX_REGISTERS :: nat where
  "MAX_REGISTERS = 256"

text \<open>The signals \<open>readRequest\<close> and \<open>writeRequest\<close>, with their three arguments.\<close>

datatype slave_signal = ReadRequest quint8 quint16 quint16 | WriteRequest quint8 quint16 quint16

text \<open>
  The slave object: its address, the receive buffer, the two register banks, and the two
  things it does to the outside, in order: frames written to the serial port and signals
  emitted.
\<close>

record slave =
  m_slaveAddress :: quint8
  m_receiveBuffer :: QByteArray
  m_holdingRegisters :: "quint16 list"
  m_inputRegisters :: "quint16 list"
  serial_written :: "QByteArray list"
  emitted :: "slave_signal list"

text \<open>The constructor: both banks resized to \<open>MAX_REGISTERS\<close> and filled with 0.\<close>

definition ProtocolModbusSlave :: "quint8 \<Rightarrow> slave" where
  "ProtocolModbusSlave slaveAddress =
     \<lparr>m_slaveAddress = slaveAddress, m_receiveBuffer = [],
      m_holdingRegisters = replicate MAX_REGISTERS 0,
      m_inputRegisters = replicate MAX_REGISTERS 0,
      serial_written = [], emitted = []\<rparr>"

definition setHoldingRegister :: "slave \<Rightarrow> quint16 \<Rightarrow> quint16 \<Rightarrow> error + (bool \<times> slave)" where
  "setHoldingRegister s address v =
     (if unat address \<ge> MAX_REGISTERS then Inr (False, s)
      else bind_err (reg_set (m_holdingRegisters s) (unat address) v) (\<lambda>regs.
           Inr (True, s\<lparr>m_holdingRegisters := regs\<rparr>)))"

definition getHoldingRegister :: "slave \<Rightarrow> quint16 \<Rightarrow> error + quint16" where
  "getHoldingRegister s address =
     (if unat address \<ge> MAX_REGISTERS then Inr 0
      else reg_at (m_holdingRegisters s) (unat address))"

definition sendResponse :: "slave \<Rightarrow> QByteArray \<Rightarrow> slave" where
  "sendResponse s response =
     (let crc = calculateCRC16 response;
          frame = response @ [lo_byte crc, hi_byte crc]
      in s\<lparr>serial_written := serial_written s @ [frame]\<rparr>)"

definition sendException :: "slave \<Rightarrow> quint8 \<Rightarrow> quint8 \<Rightarrow> slave" where
  "sendException s functionCode exceptionCode =
     sendResponse s [m_slaveAddress s, functionCode OR 0x80, exceptionCode]"

definition verifyCRC :: "QByteArray \<Rightarrow> bool" where
  "verifyCRC data =
     (if length data < 4 then False
      else
        let receivedCRC = word_of_bytes (data ! (length data - 1)) (data ! (length data - 2));
            dataWithoutCRC = take (length data - 2) data;
            calculatedCRC = calculateCRC16 dataWithoutCRC
        in receivedCRC = calculatedCRC)"

text \<open>The register-copy loop of the two read handlers, over \<open>i = 0 ..< count\<close>.\<close>

fun read_regs :: "quint16 list \<Rightarrow> nat \<Rightarrow> nat list \<Rightarrow> error + QByteArray" where
  "read_regs regs startAddr [] = Inr []"
| "read_regs regs startAddr (i # is) =
     bind_err (reg_at regs (startAddr + i)) (\<lambda>v.
     bind_err (read_regs regs startAddr is) (\<lambda>rest.
     Inr ([hi_byte v, lo_byte v] @ rest)))"

definition handleRead ::
  "quint8 \<Rightarrow> (slave \<Rightarrow> quint16 list) \<Rightarrow> slave \<Rightarrow> QByteArray \<Rightarrow> error + slave" where
  "handleRead fc bank s request =
     bind_err (read16 request 2) (\<lambda>startAddr.
     bind_err (read16 request 4) (\<lambda>count.
     if count = 0 \<or> unat count > 125 \<or> unat startAddr + unat count > MAX_REGISTERS
     then Inr (sendException s fc MODBUS_EXCEPTION_ILLEGAL_DATA_ADDRESS)
     else
       bind_err (read_regs (bank s) (unat startAddr) [0 ..< unat count]) (\<lambda>regdata.
       let response = [m_slaveAddress s, fc, of_nat (unat count * 2)] @ regdata;
           s1 = sendResponse s response
       in Inr (s1\<lparr>emitted := emitted s1 @ [ReadRequest fc startAddr count]\<rparr>))))"

definition handleReadHoldingRegisters :: "slave \<Rightarrow> QByteArray \<Rightarrow> error + slave" where
  "handleReadHoldingRegisters = handleRead 0x03 m_holdingRegisters"

definition handleReadInputRegisters :: "slave \<Rightarrow> QByteArray \<Rightarrow> error + slave" where
  "handleReadInputRegisters = handleRead 0x04 m_inputRegisters"

definition handleWriteSingleRegister :: "slave \<Rightarrow> QByteArray \<Rightarrow> error + slave" where
  "handleWriteSingleRegister s request =
     bind_err (read16 request 2) (\<lambda>address.
     bind_err (read16 request 4) (\<lambda>v.
     if unat address \<ge> MAX_REGISTERS
     then Inr (sendException s 0x06 MODBUS_EXCEPTION_ILLEGAL_DATA_ADDRESS)
     else
       bind_err (reg_set (m_holdingRegisters s) (unat address) v) (\<lambda>regs.
       let s1 = sendResponse (s\<lparr>m_holdingRegisters := regs\<rparr>) (take 6 request)
       in Inr (s1\<lparr>emitted := emitted s1 @ [WriteRequest 0x06 address v]\<rparr>))))"

text \<open>The write loop of function 0x10, over \<open>i = 0 ..< count\<close>.\<close>

fun write_regs :: "QByteArray \<Rightarrow> nat \<Rightarrow> nat list \<Rightarrow> quint16 list \<Rightarrow> error + quint16 list" where
  "write_regs request startAddr [] regs = Inr regs"
| "write_regs request startAddr (i # is) regs =
     bind_err (read16 request (7 + i * 2)) (\<lambda>v.
     bind_err (reg_set regs (startAddr + i) v) (\<lambda>regs'.
     write_regs request startAddr is regs'))"

definition handleWriteMultipleRegisters :: "slave \<Rightarrow> QByteArray \<Rightarrow> error + slave" where
  "handleWriteMultipleRegisters s request =
     bind_err (read16 request 2) (\<lambda>startAddr.
     bind_err (read16 request 4) (\<lambda>count.
     bind_err (byte_at request 6) (\<lambda>byteCount.
     if count = 0 \<or> unat count > 123 \<or> unat startAddr + unat count > MAX_REGISTERS
        \<or> unat byteCount \<noteq> unat count * 2
     then Inr (sendException s 0x10 MODBUS_EXCEPTION_ILLEGAL_DATA_ADDRESS)
     else
       bind_err (write_regs request (unat startAddr) [0 ..< unat count] (m_holdingRegisters s))
         (\<lambda>regs.
       let response = [m_slaveAddress s, 0x10, hi_byte startAddr, lo_byte startAddr,
                       hi_byte count, lo_byte count];
           s1 = sendResponse (s\<lparr>m_holdingRegisters := regs\<rparr>) response
       in Inr (s1\<lparr>emitted := emitted s1 @ [WriteRequest 0x10 startAddr count]\<rparr>)))))"

definition processRequest :: "slave \<Rightarrow> QByteArray \<Rightarrow> error + slave" where
  "processRequest s request =
     (if length request < 6 then Inr s
      else if \<not> verifyCRC request then Inr s
      else
        bind_err (byte_at request 0) (\<lambda>address.
        if address \<noteq> m_slaveAddress s then Inr s
        else
          bind_err (byte_at request 1) (\<lambda>functionCode.
          if functionCode = 0x03 then handleReadHoldingRegisters s request
          else if functionCode = 0x04 then handleReadInputRegisters s request
          else if functionCode = 0x06 then handleWriteSingleRegister s request
          else if functionCode = 0x10 then handleWriteMultipleRegisters s request
          else Inr (sendException s functionCode MODBUS_EXCEPTION_ILLEGAL_FUNCTION))))"

text \<open>\<open>onSerialDataReceived\<close>: the bytes read are appended to the receive buffer.\<close>

definition onSerialDataReceived :: "slave \<Rightarrow> QByteArray \<Rightarrow> slave" where
  "onSerialDataReceived s bytes = s\<lparr>m_receiveBuffer := m_receiveBuffer s @ bytes\<rparr>"

text \<open>The frame timer's handler: process the buffer as one frame, then clear it.\<close>

definition onFrameTimeout :: "slave \<Rightarrow> error + slave" where
  "onFrameTimeout s =
     bind_err (if length (m_receiveBuffer s) \<ge> 4 then processRequest s (m_receiveBuffer s)
               else Inr s) (\<lambda>s1.
     Inr (s1\<lparr>m_receiveBuffer := []\<rparr>))"

section \<open>Modbus RTU master (ModbusRTU.cpp)\<close>

text \<open>The three \<open>setError\<close> messages of the master, and what the event loop can deliver
  while \<open>sendRequest\<close> waits: bytes arriving on the port (\<open>readyRead\<close>) and the expiry of
  the single-shot response timer.\<close>

datatype master_error = ResponseTimeout | CrcCheckFailed | ModbusException quint8

datatype event = ReadyRead QByteArray | TimerTimeout

text \<open>
  The master object. \<open>rtu_portPending\<close> is what the serial port holds and \<open>readAll\<close> has
  not fetched yet; \<open>rtu_written\<close> lists the requests written to the port; \<open>rtu_errors\<close>
  and \<open>rtu_exceptions\<close> log the \<open>setError\<close> calls and the \<open>modbusException\<close> signals.
\<close>

record rtu_master =
  rtu_slaveAddress :: quint8
  rtu_isOpen :: bool
  rtu_receiveBuffer :: QByteArray
  rtu_waitingForResponse :: bool
  rtu_timerActive :: bool
  rtu_portPending :: QByteArray
  rtu_written :: "QByteArray list"
  rtu_errors :: "master_error list"
  rtu_exceptions :: "quint8 list"

definition rtu_setError :: "rtu_master \<Rightarrow> master_error \<Rightarrow> rtu_master" where
  "rtu_setError m e = m\<lparr>rtu_errors := rtu_errors m @ [e]\<rparr>"

definition buildRequest :: "rtu_master \<Rightarrow> quint8 \<Rightarrow> QByteArray \<Rightarrow> QByteArray" where
  "buildRequest m functionCode data =
     (let request = [rtu_slaveAddress m] @ [functionCode] @ data;
          crc = calculateCRC16 request
      in request @ [lo_byte crc] @ [hi_byte crc])"

text \<open>
  \<open>validateResponse\<close>. After the first test the response has at least 5 bytes, so the
  indices 0, 1, 2, \<open>size - 2\<close> and \<open>size - 1\<close> it reads are inside the array.
\<close>

definition validateResponse :: "rtu_master \<Rightarrow> QByteArray \<Rightarrow> bool \<times> rtu_master" where
  "validateResponse m response =
     (if length response < 5 then (False, m)
      else if response ! 0 \<noteq> rtu_slaveAddress m then (False, m)
      else
        let dataWithoutCRC = take (length response - 2) response;
            receivedCRC = word_of_bytes (response ! (length response - 1))
                                        (response ! (length response - 2));
            calculatedCRC = calculateCRC16 dataWithoutCRC
        in if receivedCRC \<noteq> calculatedCRC then (False, rtu_setError m CrcCheckFailed)
           else
             let functionCode = response ! 1
             in if functionCode AND 0x80 \<noteq> 0
                then
                  let exceptionCode = response ! 2;
                      m1 = m\<lparr>rtu_exceptions := rtu_exceptions m @ [exceptionCode]\<rparr>
                  in (False, rtu_setError m1 (ModbusException exceptionCode))
                else (True, m))"

text \<open>The two slots.\<close>

definition rtu_onSerialDataReceived :: "rtu_master \<Rightarrow> rtu_master" where
  "rtu_onSerialDataReceived m =
     (if \<not> rtu_waitingForResponse m then m
      else m\<lparr>rtu_receiveBuffer := rtu_receiveBuffer m @ rtu_portPending m,
              rtu_portPending := []\<rparr>)"

definition rtu_onResponseTimeout :: "rtu_master \<Rightarrow> rtu_master" where
  "rtu_onResponseTimeout m =
     (if rtu_waitingForResponse m
      then (rtu_setError m ResponseTimeout)\<lparr>rtu_waitingForResponse := False\<rparr>
      else m)"

text \<open>One event delivered by \<open>QCoreApplication::processEvents\<close>. A timer that is not
  running does not fire; a single-shot timer that fires is no longer active.\<close>

fun rtu_deliver :: "rtu_master \<Rightarrow> event \<Rightarrow> rtu_master" where
  "rtu_deliver m (ReadyRead bytes) =
     rtu_onSerialDataReceived (m\<lparr>rtu_portPending := rtu_portPending m @ bytes\<rparr>)"
| "rtu_deliver m TimerTimeout =
     (if rtu_timerActive m then rtu_onResponseTimeout (m\<lparr>rtu_timerActive := False\<rparr>) else m)"

definition rtu_processEvents :: "rtu_master \<Rightarrow> event list \<Rightarrow> rtu_master" where
  "rtu_processEvents m evs = foldl rtu_deliver m evs"

text \<open>The body of the waiting loop: process the pending events, then look at the buffer.
  The boolean is the \<open>break\<close>.\<close>

definition rtu_poll :: "rtu_master \<Rightarrow> event list \<Rightarrow> bool \<times> rtu_master" where
  "rtu_poll m evs =
     (let m1 = rtu_processEvents m evs
      in if length (rtu_receiveBuffer m1) \<ge> 5
         then (case validateResponse m1 (rtu_receiveBuffer m1) of
                 (True, m2) \<Rightarrow> (True, m2\<lparr>rtu_waitingForResponse := False, rtu_timerActive := False\<rparr>)
               | (False, m2) \<Rightarrow> (False, m2))
         else (False, m1))"

text \<open>
  The loop \<open>while (m_waitingForResponse && m_responseTimer->isActive())\<close>. Its second
  argument lists, pass by pass, the events the event loop delivers; the response timer was
  started with a finite interval, so once the list is used up the next event is its expiry.
\<close>

fun rtu_wait :: "rtu_master \<Rightarrow> event list list \<Rightarrow> rtu_master" where
  "rtu_wait m [] =
     (if rtu_waitingForResponse m \<and> rtu_timerActive m then snd (rtu_poll m [TimerTimeout])
      else m)"
| "rtu_wait m (evs # rest) =
     (if rtu_waitingForResponse m \<and> rtu_timerActive m
      then (case rtu_poll m evs of
              (True, m1) \<Rightarrow> m1
            | (False, m1) \<Rightarrow> rtu_wait m1 rest)
      else m)"

definition sendRequest ::
  "rtu_master \<Rightarrow> QByteArray \<Rightarrow> event list list \<Rightarrow> QByteArray \<times> rtu_master" where
  "sendRequest m request ticks =
     (if \<not> rtu_isOpen m then ([], m)
      else
        let m1 = m\<lparr>rtu_receiveBuffer := [], rtu_waitingForResponse := True\<rparr>;
            m2 = m1\<lparr>rtu_written := rtu_written m1 @ [request]\<rparr>;
            m3 = m2\<lparr>rtu_timerActive := True\<rparr>;
            m4 = rtu_wait m3 ticks;
            m5 = m4\<lparr>rtu_waitingForResponse := False, rtu_timerActive := False\<rparr>
        in (rtu_receiveBuffer m5, m5))"

text \<open>\<open>QByteArray::mid(pos, len)\<close> for \<open>pos\<close> inside the array.\<close>

definition mid :: "QByteArray \<Rightarrow> nat \<Rightarrow> nat \<Rightarrow> QByteArray" where
  "mid a pos len = take len (drop pos a)"

definition parseBooleans :: "QByteArray \<Rightarrow> quint16 \<Rightarrow> bool list" where
  "parseBooleans data count =
     map (\<lambda>i. (data ! (i div 8)) AND push_bit (i mod 8) 1 \<noteq> 0)
         (filter (\<lambda>i. i div 8 < length data) [0 ..< unat count])"

fun parseRegisters :: "QByteArray \<Rightarrow> quint16 list" where
  "parseRegisters (hi # lo # rest) = word_of_bytes hi lo # parseRegisters rest"
| "parseRegisters _ = []"

text \<open>The four request bytes \<open>[address high][address low][count high][count low]\<close>.\<close>

definition addr_count_bytes :: "quint16 \<Rightarrow> quint16 \<Rightarrow> QByteArray" where
  "addr_count_bytes a c = [hi_byte a, lo_byte a, hi_byte c, lo_byte c]"

definition readCoils ::
  "rtu_master \<Rightarrow> quint16 \<Rightarrow> quint16 \<Rightarrow> event list list \<Rightarrow> bool list \<times> rtu_master" where
  "readCoils m startAddress count ticks =
     (if \<not> rtu_isOpen m \<or> count = 0 \<or> unat count > 2000 then ([], m)
      else
        case sendRequest m (buildRequest m 0x01 (addr_count_bytes startAddress count)) ticks of
          (response, m1) \<Rightarrow>
            if response = [] \<or> length response < 3 then ([], m1)
            else
              let byteCount = response ! 2;
                  coilData = mid response 3 (unat byteCount)
              in (parseBooleans coilData count, m1))"

definition readHoldingRegisters ::
  "rtu_master \<Rightarrow> quint16 \<Rightarrow> quint16 \<Rightarrow> event list list \<Rightarrow> quint16 list \<times> rtu_master" where
  "readHoldingRegisters m startAddress count ticks =
     (if \<not> rtu_isOpen m \<or> count = 0 \<or> unat count > 125 then ([], m)
      else
        case sendRequest m (buildRequest m 0x03 (addr_count_bytes startAddress count)) ticks of
          (response, m1) \<Rightarrow>
            if response = [] \<or> length response < 3 then ([], m1)
            else
              let byteCount = response ! 2;
                  registerData = mid response 3 (unat byteCount)
              in (parseRegisters registerData, m1))"

definition writeSingleRegister ::
  "rtu_master \<Rightarrow> quint16 \<Rightarrow> quint16 \<Rightarrow> event list list \<Rightarrow> bool \<times> rtu_master" where
  "writeSingleRegister m address v ticks =
     (if \<not> rtu_isOpen m then (False, m)
      else
        case sendRequest m (buildRequest m 0x06 (addr_count_bytes address v)) ticks of
          (response, m1) \<Rightarrow> (response \<noteq> [], m1))"

text \<open>A master as the constructor and a successful \<open>connect\<close> leave it: slave address 1,
  port open, nothing buffered, written or logged.\<close>

definition connected_rtu_master :: rtu_master where
  "connected_rtu_master =
     \<lparr>rtu_slaveAddress = 1, rtu_isOpen = True, rtu_receiveBuffer = [],
      rtu_waitingForResponse = False, rtu_timerActive = False, rtu_portPending = [],
      rtu_written = [], rtu_errors = [], rtu_exceptions = []\<rparr>"

section \<open>Modbus TCP master (ModbusTCP.cpp)\<close>

text \<open>
  The TCP master has the same shape as the RTU master: \<open>tcp_socketPending\<close> is what the
  socket holds and \<open>readAll\<close> has not fetched yet, \<open>tcp_written\<close> lists the requests
  written to the socket. \<open>tcp_connected\<close> is \<open>state() == ConnectedState\<close>.
\<close>

record tcp_master =
  tcp_unitId :: quint8
  tcp_transactionId :: quint16
  tcp_connected :: bool
  tcp_receiveBuffer :: QByteArray
  tcp_waitingForResponse :: bool
  tcp_timerActive :: bool
  tcp_socketPending :: QByteArray
  tcp_written :: "QByteArray list"
  tcp_errors :: "master_error list"
  tcp_exceptions :: "quint8 list"

definition tcp_setError :: "tcp_master \<Rightarrow> master_error \<Rightarrow> tcp_master" where
  "tcp_setError m e = m\<lparr>tcp_errors := tcp_errors m @ [e]\<rparr>"

text \<open>\<open>buildRequest\<close>: the MBAP header, the PDU, and the increment of the transaction
  counter (a \<open>quint16\<close>, so it wraps).\<close>

definition tcp_buildRequest ::
  "tcp_master \<Rightarrow> quint8 \<Rightarrow> QByteArray \<Rightarrow> QByteArray \<times> tcp_master" where
  "tcp_buildRequest m functionCode data =
     (let len = (of_nat (length data + 2) :: quint16);
          request = [hi_byte (tcp_transactionId m), lo_byte (tcp_transactionId m), 0x00, 0x00,
                     hi_byte len, lo_byte len, tcp_unitId m, functionCode] @ data
      in (request, m\<lparr>tcp_transactionId := tcp_transactionId m + 1\<rparr>))"

text \<open>
  \<open>validateResponse\<close>. Bytes 0 to 7 are inside the array after the first test; the
  exception code at index 8 is read without a further test, through \<open>byte_at\<close>.
\<close>

definition tcp_validateResponse ::
  "tcp_master \<Rightarrow> QByteArray \<Rightarrow> quint16 \<Rightarrow> error + (bool \<times> tcp_master)" where
  "tcp_validateResponse m response expectedTransactionId =
     (if length response < 8 then Inr (False, m)
      else
        let transactionId = word_of_bytes (response ! 0) (response ! 1)
        in if transactionId \<noteq> expectedTransactionId then Inr (False, m)
           else if response ! 2 \<noteq> 0x00 \<or> response ! 3 \<noteq> 0x00 then Inr (False, m)
           else if response ! 6 \<noteq> tcp_unitId m then Inr (False, m)
           else
             let functionCode = response ! 7
             in if functionCode AND 0x80 \<noteq> 0
                then
                  bind_err (byte_at response 8) (\<lambda>exceptionCode.
                  let m1 = m\<lparr>tcp_exceptions := tcp_exceptions m @ [exceptionCode]\<rparr>
                  in Inr (False, tcp_setError m1 (ModbusException exceptionCode)))
                else Inr (True, m))"

definition tcp_onTcpDataReceived :: "tcp_master \<Rightarrow> tcp_master" where
  "tcp_onTcpDataReceived m =
     (if \<not> tcp_waitingForResponse m then m
      else m\<lparr>tcp_receiveBuffer := tcp_receiveBuffer m @ tcp_socketPending m,
              tcp_socketPending := []\<rparr>)"

definition tcp_onResponseTimeout :: "tcp_master \<Rightarrow> tcp_master" where
  "tcp_onResponseTimeout m =
     (if tcp_waitingForResponse m
      then (tcp_setError m ResponseTimeout)\<lparr>tcp_waitingForResponse := False\<rparr>
      else m)"

fun tcp_deliver :: "tcp_master \<Rightarrow> event \<Rightarrow> tcp_master" where
  "tcp_deliver m (ReadyRead bytes) =
     tcp_onTcpDataReceived (m\<lparr>tcp_socketPending := tcp_socketPending m @ bytes\<rparr>)"
| "tcp_deliver m TimerTimeout =
     (if tcp_timerActive m then tcp_onResponseTimeout (m\<lparr>tcp_timerActive := False\<rparr>) else m)"

definition tcp_processEvents :: "tcp_master \<Rightarrow> event list \<Rightarrow> tcp_master" where
  "tcp_processEvents m evs = foldl tcp_deliver m evs"

text \<open>The body of the waiting loop; the boolean is the \<open>break\<close>. The buffer is validated
  only once it holds the 6 header bytes plus as many bytes as the MBAP length field says.\<close>

definition tcp_poll ::
  "tcp_master \<Rightarrow> quint16 \<Rightarrow> event list \<Rightarrow> error + (bool \<times> tcp_master)" where
  "tcp_poll m currentTransactionId evs =
     (let m1 = tcp_processEvents m evs;
          buf = tcp_receiveBuffer m1
      in if length buf \<ge> 8
         then
           let len = word_of_bytes (buf ! 4) (buf ! 5)
           in if length buf \<ge> 6 + unat len
              then
                bind_err (tcp_validateResponse m1 buf currentTransactionId) (\<lambda>(ok, m2).
                if ok
                then Inr (True, m2\<lparr>tcp_waitingForResponse := False, tcp_timerActive := False\<rparr>)
                else Inr (False, m2))
              else Inr (False, m1)
         else Inr (False, m1))"

text \<open>The waiting loop, over the events of each pass; as for the RTU master, the expiry of
  the response timer follows the listed passes.\<close>

fun tcp_wait :: "tcp_master \<Rightarrow> quint16 \<Rightarrow> event list list \<Rightarrow> error + tcp_master" where
  "tcp_wait m tid [] =
     (if tcp_waitingForResponse m \<and> tcp_timerActive m
      then bind_err (tcp_poll m tid [TimerTimeout]) (\<lambda>(brk, m1). Inr m1)
      else Inr m)"
| "tcp_wait m tid (evs # rest) =
     (if tcp_waitingForResponse m \<and> tcp_timerActive m
      then bind_err (tcp_poll m tid evs) (\<lambda>(brk, m1).
           if brk then Inr m1 else tcp_wait m1 tid rest)
      else Inr m)"

definition tcp_sendRequest ::
  "tcp_master \<Rightarrow> QByteArray \<Rightarrow> event list list \<Rightarrow> error + (QByteArray \<times> tcp_master)" where
  "tcp_sendRequest m request ticks =
     (if \<not> tcp_connected m then Inr ([], m)
      else
        let m1 = m\<lparr>tcp_receiveBuffer := [], tcp_waitingForResponse := True\<rparr>;
            currentTransactionId = tcp_transactionId m1 - 1;
            m2 = m1\<lparr>tcp_written := tcp_written m1 @ [request]\<rparr>;
            m3 = m2\<lparr>tcp_timerActive := True\<rparr>
        in bind_err (tcp_wait m3 currentTransactionId ticks) (\<lambda>m4.
           let m5 = m4\<lparr>tcp_waitingForResponse := False, tcp_timerActive := False\<rparr>
           in Inr (tcp_receiveBuffer m5, m5)))"

definition tcp_writeSingleRegister ::
  "tcp_master \<Rightarrow> quint16 \<Rightarrow> quint16 \<Rightarrow> event list list \<Rightarrow> error + (bool \<times> tcp_master)" where
  "tcp_writeSingleRegister m address v ticks =
     (if \<not> tcp_connected m then Inr (False, m)
      else
        case tcp_buildRequest m 0x06 (addr_count_bytes address v) of
          (request, m1) \<Rightarrow>
            bind_err (tcp_sendRequest m1 request ticks) (\<lambda>(response, m2).
            Inr (response \<noteq> [], m2)))"

text \<open>A TCP master as the constructor and a successful \<open>connectToHost\<close> leave it: unit
  id 1, transaction counter 0.\<close>

definition connected_tcp_master :: tcp_master where
  "connected_tcp_master =
     \<lparr>tcp_unitId = 1, tcp_transactionId = 0, tcp_connected = True, tcp_receiveBuffer = [],
      tcp_waitingForResponse = False, tcp_timerActive = False, tcp_socketPending = [],
      tcp_written = [], tcp_errors = [], tcp_exceptions = []\<rparr>"

text \<open>
  The scenario used below: a connected master about to send transaction id 5, and the
  response to a write of 1234 to register 0 by unit 1, carrying the transaction id
  \<open>00 lo\<close>.
\<close>

definition master_sending_5 :: tcp_master where
  "master_sending_5 = connected_tcp_master\<lparr>tcp_transactionId := 5\<rparr>"

definition response_with_id :: "quint8 \<Rightarrow> QByteArray" where
  "response_with_id lo =
     [0x00, lo, 0x00, 0x00, 0x00, 0x06, 0x01, 0x06, 0x00, 0x00, 0x04, 0xD2]"

text \<open>\<open>readHoldingRegisters\<close> of the TCP master: the byte count is read at index 8 and the
  register data taken from index 9, once the response has at least 10 bytes.\<close>

definition tcp_readHoldingRegisters ::
  "tcp_master \<Rightarrow> quint16 \<Rightarrow> quint16 \<Rightarrow> event list list
     \<Rightarrow> error + (quint16 list \<times> tcp_master)" where
  "tcp_readHoldingRegisters m startAddress count ticks =
     (if \<not> tcp_connected m \<or> count = 0 \<or> unat count > 125 then Inr ([], m)
      else
        case tcp_buildRequest m 0x03 (addr_count_bytes startAddress count) of
          (request, m1) \<Rightarrow>
            bind_err (tcp_sendRequest m1 request ticks) (\<lambda>(response, m2).
            if response = [] \<or> length response < 10 then Inr ([], m2)
            else
              let byteCount = response ! 8;
                  registerData = mid response 9 (unat byteCount)
              in Inr (parseRegisters registerData, m2)))"

text \<open>The response to a read of one holding register by unit 1, carrying the transaction
  id \<open>00 lo\<close> and the register value \<open>v\<close>.\<close>

definition read_response_with_id :: "quint8 \<Rightarrow> quint16 \<Rightarrow> QByteArray" where
  "read_response_with_id lo v =
     [0x00, lo, 0x00, 0x00, 0x00, 0x05, 0x01, 0x03, 0x02, hi_byte v, lo_byte v]"

section \<open>CAN receive thread (DriverCANHighPerf.cpp)\<close>

text \<open>
  The receive thread's queue and counters. The frame type is left open: the thread only
  stores frames and asks \<open>QCanBusFrame::isValid\<close>, which is the parameter \<open>valid\<close> below.
  \<open>overflow_signals\<close> and \<open>frame_signals\<close> log the \<open>bufferOverflow\<close> and \<open>frameReceived\<close>
  signals.
\<close>

record 'f can_thread =
  m_buffer :: "'f list"
  m_maxBufferSize :: int
  m_receivedCount :: quint64
  m_droppedCount :: quint64
  overflow_signals :: "quint64 list"
  frame_signals :: "'f list"

text \<open>The constructor (capacity 1000, counters 0) and \<open>setMaxBufferSize\<close>.\<close>

definition CANReceiveThread :: "'f can_thread" where
  "CANReceiveThread =
     \<lparr>m_buffer = [], m_maxBufferSize = 1000, m_receivedCount = 0, m_droppedCount = 0,
      overflow_signals = [], frame_signals = []\<rparr>"

definition setMaxBufferSize :: "'f can_thread \<Rightarrow> int \<Rightarrow> 'f can_thread" where
  "setMaxBufferSize s maxFrames = s\<lparr>m_maxBufferSize := maxFrames\<rparr>"

text \<open>\<open>QQueue::dequeue\<close>: head and rest; undefined on an empty queue.\<close>

definition dequeue :: "'f list \<Rightarrow> error + ('f \<times> 'f list)" where
  "dequeue q = (case q of [] \<Rightarrow> Inl DequeueOnEmpty | x # rest \<Rightarrow> Inr (x, rest))"

text \<open>The part of \<open>run\<close> between the two mutex calls and the \<open>emit\<close> after it, for one
  valid frame whose arrival has been counted.\<close>

definition store_frame :: "'f can_thread \<Rightarrow> 'f \<Rightarrow> error + 'f can_thread" where
  "store_frame s frame =
     bind_err
       (if int (length (m_buffer s)) \<ge> m_maxBufferSize s
        then
          bind_err (dequeue (m_buffer s)) (\<lambda>(oldest, rest).
          let s1 = s\<lparr>m_buffer := rest, m_droppedCount := m_droppedCount s + 1\<rparr>
          in Inr (if unat (m_droppedCount s1) mod 100 = 0
                  then s1\<lparr>overflow_signals := overflow_signals s1 @ [m_droppedCount s1]\<rparr>
                  else s1))
        else Inr s)
       (\<lambda>s2.
     let s3 = s2\<lparr>m_buffer := m_buffer s2 @ [frame]\<rparr>
     in Inr (s3\<lparr>frame_signals := frame_signals s3 @ [frame]\<rparr>))"

text \<open>One frame read from the device: an invalid frame only feeds the local error count
  (which decides a sleep), a valid one is counted and stored.\<close>

definition receive_frame :: "('f \<Rightarrow> bool) \<Rightarrow> 'f can_thread \<Rightarrow> 'f \<Rightarrow> error + 'f can_thread" where
  "receive_frame valid s frame =
     (if valid frame
      then store_frame (s\<lparr>m_receivedCount := m_receivedCount s + 1\<rparr>) frame
      else Inr s)"

text \<open>The inner loop \<open>while (m_device->framesAvailable() > 0)\<close> over the frames the device
  hands out, oldest first.\<close>

fun receive_frames :: "('f \<Rightarrow> bool) \<Rightarrow> 'f can_thread \<Rightarrow> 'f list \<Rightarrow> error + 'f can_thread" where
  "receive_frames valid s [] = Inr s"
| "receive_frames valid s (frame # frames) =
     bind_err (receive_frame valid s frame) (\<lambda>s1. receive_frames valid s1 frames)"

text \<open>\<open>readAllFrames\<close>: dequeue into \<open>frames\<close> until the queue is empty.\<close>

fun drain :: "'f list \<Rightarrow> 'f list \<Rightarrow> 'f list" where
  "drain frames [] = frames"
| "drain frames (x # q) = drain (frames @ [x]) q"

definition readAllFrames :: "'f can_thread \<Rightarrow> 'f list \<times> 'f can_thread" where
  "readAllFrames s = (drain [] (m_buffer s), s\<lparr>m_buffer := []\<rparr>)"

definition getBufferedFrameCount :: "'f can_thread \<Rightarrow> nat" where
  "getBufferedFrameCount s = length (m_buffer s)"

definition getDroppedCount :: "'f can_thread \<Rightarrow> quint64" where
  "getDroppedCount s = m_droppedCount s"

text \<open>A validity test that accepts every frame, for frames numbered by naturals.\<close>

definition every_frame_valid :: "nat \<Rightarrow> bool" where
  "every_frame_valid frame = True"

section \<open>Serial read buffer (DriverSerial.cpp)\<close>

text \<open>
  \<open>m_readBufferMaxSize\<close> is a \<open>qint64\<close>, held here as its integer value;
  \<open>overflow_warnings\<close> counts the overflow warnings raised and \<open>dataReceived_signals\<close>
  logs the \<open>dataReceived\<close> signal. \<open>has_port\<close> is \<open>m_pSerialPort != nullptr\<close>.
\<close>

record serial_driver =
  has_port :: bool
  m_readBuffer :: QByteArray
  m_readBufferMaxSize :: int
  overflow_warnings :: nat
  dataReceived_signals :: "QByteArray list"

definition DriverSerial :: serial_driver where
  "DriverSerial =
     \<lparr>has_port = True, m_readBuffer = [], m_readBufferMaxSize = 65536,
      overflow_warnings = 0, dataReceived_signals = []\<rparr>"

definition setReadBufferSize :: "serial_driver \<Rightarrow> int \<Rightarrow> serial_driver" where
  "setReadBufferSize s newSize = s\<lparr>m_readBufferMaxSize := newSize\<rparr>"

text \<open>The conversion of a \<open>qint64\<close> to the \<open>int\<close> parameter of \<open>QByteArray::right\<close>: the
  low 32 bits, read as two's complement.\<close>

definition to_int32 :: "int \<Rightarrow> int" where
  "to_int32 k = signed_take_bit 31 k"

text \<open>\<open>QByteArray::right(len)\<close>: the whole array when \<open>len\<close> reaches its size, nothing
  for a negative \<open>len\<close>, the last \<open>len\<close> bytes otherwise.\<close>

definition right :: "QByteArray \<Rightarrow> int \<Rightarrow> QByteArray" where
  "right a len =
     (if len \<ge> int (length a) then a
      else if len < 0 then []
      else drop (length a - nat len) a)"

text \<open>\<open>onReadyRead\<close>, with the bytes \<open>readAll\<close> returns as argument. The division is C's,
  which truncates towards zero.\<close>

definition onReadyRead :: "serial_driver \<Rightarrow> QByteArray \<Rightarrow> serial_driver" where
  "onReadyRead s data =
     (if \<not> has_port s then s
      else if data \<noteq> []
      then
        let s1 = s\<lparr>m_readBuffer := m_readBuffer s @ data\<rparr>;
            s2 = (if int (length (m_readBuffer s1)) > m_readBufferMaxSize s1
                  then s1\<lparr>overflow_warnings := overflow_warnings s1 + 1,
                          m_readBuffer :=
                            right (m_readBuffer s1) (to_int32 (m_readBufferMaxSize s1 sdiv 2))\<rparr>
                  else s1)
        in s2\<lparr>dataReceived_signals := dataReceived_signals s2 @ [data]\<rparr>
      else s)"

section \<open>Properties of the checksum\<close>

lemma crc_round_even:
  assumes "\<not> bit crc 0"
  shows "crc_round crc = drop_bit 1 crc"
proof -
  have "crc AND 1 = 0"
    using assms by (simp add: and_one_eq mod_2_eq_odd bit_0)
  then show ?thesis by (simp add: crc_round_def)
qed

lemma crc_rounds_low_zero:
  "take_bit j crc = 0 \<Longrightarrow> crc_rounds j crc = drop_bit j crc"
proof (induction j arbitrary: crc)
  case 0
  then show ?case by simp
next
  case (Suc j)
  have lsb: "\<not> bit crc 0"
  proof
    assume "bit crc 0"
    then have "bit (take_bit (Suc j) crc) 0" by (simp add: bit_take_bit_iff)
    with Suc.prems show False by simp
  qed
  have "take_bit j (drop_bit 1 crc) = drop_bit 1 (take_bit (Suc j) crc)"
    by (simp add: take_bit_drop_bit)
  with Suc.prems have rest: "take_bit j (drop_bit 1 crc) = 0" by simp
  have "crc_rounds (Suc j) crc = crc_rounds j (drop_bit 1 crc)"
    using lsb by (simp add: crc_round_even)
  also have "\<dots> = drop_bit j (drop_bit 1 crc)"
    using rest by (rule Suc.IH)
  also have "\<dots> = drop_bit (Suc j) crc"
    by simp
  finally show ?case .
qed

lemma ff_mask16: "(0xFF :: quint16) = mask 8"
  by (simp add: mask_eq_exp_minus_1)

lemma xor_own_low_byte:
  "take_bit 8 (crc XOR ucast (lo_byte crc)) = (0 :: quint16)"
  by (rule bit_word_eqI) (auto simp add: lo_byte_def ff_mask16 bit_simps)

lemma drop_xor_own_low_byte:
  "drop_bit 8 (crc XOR ucast (lo_byte crc)) = drop_bit 8 (crc :: quint16)"
  by (rule bit_word_eqI) (auto simp add: lo_byte_def ff_mask16 bit_simps)

lemma xor_own_high_byte:
  "drop_bit 8 crc XOR ucast (hi_byte crc) = (0 :: quint16)"
  by (rule bit_word_eqI) (auto simp add: hi_byte_def ff_mask16 bit_simps dest: bit_imp_le_length)

lemma crc_byte_own_low: "crc_byte crc (lo_byte crc) = drop_bit 8 crc"
proof -
  have "crc_byte crc (lo_byte crc) = drop_bit 8 (crc XOR ucast (lo_byte crc))"
    unfolding crc_byte_def by (rule crc_rounds_low_zero) (rule xor_own_low_byte)
  then show ?thesis by (simp only: drop_xor_own_low_byte)
qed

lemma crc_byte_own_high: "crc_byte (drop_bit 8 crc) (hi_byte crc) = 0"
proof -
  have "crc_rounds 8 (0 :: quint16) = drop_bit 8 0"
    by (rule crc_rounds_low_zero) simp
  then show ?thesis
    by (simp only: crc_byte_def xor_own_high_byte) simp
qed

text \<open>
  C1. For every byte sequence \<open>b\<close>: append \<open>calculateCRC16 b\<close> to \<open>b\<close>, low byte first and
  high byte second, and run \<open>calculateCRC16\<close> over the extended sequence; the result is 0.
\<close>

theorem crc16_residue_zero:
  "calculateCRC16 (b @ [lo_byte (calculateCRC16 b), hi_byte (calculateCRC16 b)]) = 0"
  by (simp add: calculateCRC16_def crc_byte_own_low crc_byte_own_high)

section \<open>Properties of the slave\<close>

lemma processRequest_bad_crc: "\<not> verifyCRC request \<Longrightarrow> processRequest s request = Inr s"
  by (simp add: processRequest_def)

lemma processRequest_foreign_address:
  "byte_at request 0 \<noteq> Inr (m_slaveAddress s) \<Longrightarrow> processRequest s request = Inr s"
  by (auto simp add: processRequest_def byte_at_def bind_err_def)

lemma processRequest_silent:
  assumes "\<not> verifyCRC request \<or> byte_at request 0 \<noteq> Inr (m_slaveAddress s)"
  shows "processRequest s request = Inr s"
  using assms processRequest_bad_crc processRequest_foreign_address by blast

text \<open>
  C4. A frame whose CRC check fails, and a frame whose first byte is not the slave's
  configured address, are dropped by \<open>processRequest\<close>: the slave is left exactly as it
  was, so nothing is written to the serial port, no signal is emitted and both register
  banks keep their contents. When such a frame is what the frame timer finds in the receive
  buffer, the only change is that the buffer is cleared. A slave with address 5 is the
  instance \<open>m_slaveAddress s = 5\<close>.
\<close>

theorem slave_silent_on_bad_crc_or_foreign_address:
  assumes "\<not> verifyCRC request \<or> byte_at request 0 \<noteq> Inr (m_slaveAddress s)"
  shows "processRequest s request = Inr s \<and>
         onFrameTimeout (s\<lparr>m_receiveBuffer := request\<rparr>) = Inr (s\<lparr>m_receiveBuffer := []\<rparr>)"
proof -
  have first: "processRequest s request = Inr s"
    using assms by (rule processRequest_silent)
  have "\<not> verifyCRC request
        \<or> byte_at request 0 \<noteq> Inr (m_slaveAddress (s\<lparr>m_receiveBuffer := request\<rparr>))"
    using assms by simp
  then have "processRequest (s\<lparr>m_receiveBuffer := request\<rparr>) request
             = Inr (s\<lparr>m_receiveBuffer := request\<rparr>)"
    by (rule processRequest_silent)
  then have "onFrameTimeout (s\<lparr>m_receiveBuffer := request\<rparr>) = Inr (s\<lparr>m_receiveBuffer := []\<rparr>)"
    by (simp add: onFrameTimeout_def bind_err_def)
  with first show ?thesis by simp
qed

theorem slave_silent_on_bad_crc_or_foreign_address_witness:
  "verifyCRC [0x01, 0x03, 0x00, 0x00, 0x00, 0x0A, 0xC5, 0xCD] \<and>
   byte_at [0x01, 0x03, 0x00, 0x00, 0x00, 0x0A, 0xC5, 0xCD] 0
     \<noteq> Inr (m_slaveAddress (ProtocolModbusSlave 5)) \<and>
   processRequest (ProtocolModbusSlave 5) [0x01, 0x03, 0x00, 0x00, 0x00, 0x0A, 0xC5, 0xCD]
     = Inr (ProtocolModbusSlave 5) \<and>
   \<not> verifyCRC [0x05, 0x03, 0x00, 0x00, 0x00, 0x0A, 0xC5, 0xCD] \<and>
   processRequest (ProtocolModbusSlave 5) [0x05, 0x03, 0x00, 0x00, 0x00, 0x0A, 0xC5, 0xCD]
     = Inr (ProtocolModbusSlave 5) \<and>
   serial_written (ProtocolModbusSlave 5) = []"
proof -
  have crc: "verifyCRC [0x01, 0x03, 0x00, 0x00, 0x00, 0x0A, 0xC5, 0xCD]"
    by code_simp
  have addr: "byte_at [0x01, 0x03, 0x00, 0x00, 0x00, 0x0A, 0xC5, 0xCD] 0
                \<noteq> Inr (m_slaveAddress (ProtocolModbusSlave 5))"
    by (simp add: byte_at_def ProtocolModbusSlave_def)
  from addr have foreign: "\<not> verifyCRC [0x01, 0x03, 0x00, 0x00, 0x00, 0x0A, 0xC5, 0xCD]
      \<or> byte_at [0x01, 0x03, 0x00, 0x00, 0x00, 0x0A, 0xC5, 0xCD] 0
           \<noteq> Inr (m_slaveAddress (ProtocolModbusSlave 5))" ..
  have bad: "\<not> verifyCRC [0x05, 0x03, 0x00, 0x00, 0x00, 0x0A, 0xC5, 0xCD]"
    by code_simp
  then have corrupt: "\<not> verifyCRC [0x05, 0x03, 0x00, 0x00, 0x00, 0x0A, 0xC5, 0xCD]
      \<or> byte_at [0x05, 0x03, 0x00, 0x00, 0x00, 0x0A, 0xC5, 0xCD] 0
           \<noteq> Inr (m_slaveAddress (ProtocolModbusSlave 5))" ..
  have quiet: "serial_written (ProtocolModbusSlave 5) = []"
    by (simp add: ProtocolModbusSlave_def)
  from slave_silent_on_bad_crc_or_foreign_address [OF foreign]
       slave_silent_on_bad_crc_or_foreign_address [OF corrupt] crc addr bad quiet
  show ?thesis by simp
qed

text \<open>
  C3. A CRC-valid write-multiple-registers request (function 0x10) for this slave, with one
  register at address 0 (count in range, inside the bank) and a byte-count field of 3
  instead of 2: the slave answers with the exception frame \<open>01 90 02 CD C1\<close>, that is
  with exception code 0x02, not 0x03. No register is modified.
\<close>

theorem fc10_byte_count_mismatch_sends_code_02:
  "verifyCRC [0x01, 0x10, 0x00, 0x00, 0x00, 0x01, 0x03, 0x12, 0x34, 0x56, 0xE7, 0x7D] \<and>
   processRequest (ProtocolModbusSlave 1)
       [0x01, 0x10, 0x00, 0x00, 0x00, 0x01, 0x03, 0x12, 0x34, 0x56, 0xE7, 0x7D]
     = Inr ((ProtocolModbusSlave 1)
         \<lparr>serial_written := [[0x01, 0x90, MODBUS_EXCEPTION_ILLEGAL_DATA_ADDRESS, 0xCD, 0xC1]]\<rparr>) \<and>
   MODBUS_EXCEPTION_ILLEGAL_DATA_ADDRESS = 0x02"
  by code_simp

text \<open>
  C10. The 6-byte frame \<open>01 10 00 00 00 1D\<close> passes the length check, the CRC check and
  the address check of a slave with address 1 and is dispatched to the handler of function
  0x10, which reads the byte-count field at index 6 of a frame of length 6.
\<close>

theorem fc10_six_byte_frame_reads_index_6:
  "length [0x01, 0x10, 0x00, 0x00, 0x00, 0x1D :: quint8] = 6 \<and>
   verifyCRC [0x01, 0x10, 0x00, 0x00, 0x00, 0x1D] \<and>
   byte_at [0x01, 0x10, 0x00, 0x00, 0x00, 0x1D] 0 = Inr (m_slaveAddress (ProtocolModbusSlave 1)) \<and>
   processRequest (ProtocolModbusSlave 1) [0x01, 0x10, 0x00, 0x00, 0x00, 0x1D]
     = Inl (IndexOutOfRange 6)"
  by code_simp

text \<open>
  C9. For an address \<open>a < 256\<close> and any 16-bit value \<open>v\<close>, on a slave whose holding bank
  has the \<open>MAX_REGISTERS\<close> entries the constructor gives it: \<open>setHoldingRegister a v\<close>
  returns true, \<open>getHoldingRegister a\<close> then returns \<open>v\<close>, and \<open>getHoldingRegister\<close> at
  every other address returns what it returned before.
\<close>

theorem holding_register_roundtrip:
  assumes "length (m_holdingRegisters s) = MAX_REGISTERS" and "unat a < 256"
  shows "setHoldingRegister s a v
           = Inr (True, s\<lparr>m_holdingRegisters := (m_holdingRegisters s)[unat a := v]\<rparr>) \<and>
         getHoldingRegister (s\<lparr>m_holdingRegisters := (m_holdingRegisters s)[unat a := v]\<rparr>) a
           = Inr v \<and>
         (\<forall>b. b \<noteq> a \<longrightarrow>
            getHoldingRegister (s\<lparr>m_holdingRegisters := (m_holdingRegisters s)[unat a := v]\<rparr>) b
              = getHoldingRegister s b)"
proof -
  have ne: "\<And>b. (unat a = unat b) = (a = b)"
    by (auto simp add: word_unat_eq_iff)
  show ?thesis
    using assms
    by (auto simp add: setHoldingRegister_def getHoldingRegister_def reg_set_def reg_at_def
        bind_err_def MAX_REGISTERS_def nth_list_update ne)
qed

theorem holding_register_roundtrip_witness:
  "length (m_holdingRegisters (ProtocolModbusSlave 1)) = MAX_REGISTERS \<and>
   unat (3 :: quint16) < 256 \<and>
   fst (projr (setHoldingRegister (ProtocolModbusSlave 1) 3 1234)) = True \<and>
   getHoldingRegister (snd (projr (setHoldingRegister (ProtocolModbusSlave 1) 3 1234))) 3
     = Inr 1234 \<and>
   getHoldingRegister (snd (projr (setHoldingRegister (ProtocolModbusSlave 1) 3 1234))) 4
     = getHoldingRegister (ProtocolModbusSlave 1) 4"
proof -
  have len: "length (m_holdingRegisters (ProtocolModbusSlave 1)) = MAX_REGISTERS"
    by (simp add: ProtocolModbusSlave_def)
  have rng: "unat (3 :: quint16) < 256" by simp
  have "(4 :: quint16) \<noteq> 3" by simp
  with holding_register_roundtrip [OF len rng, of 1234] len rng
  show ?thesis by simp
qed

section \<open>Properties of the RTU master\<close>

lemma rtu_deliver_written: "rtu_written (rtu_deliver m e) = rtu_written m"
  by (cases e)
     (simp_all add: rtu_onSerialDataReceived_def rtu_onResponseTimeout_def rtu_setError_def)

lemma rtu_processEvents_written: "rtu_written (rtu_processEvents m evs) = rtu_written m"
  unfolding rtu_processEvents_def
  by (induction evs arbitrary: m) (simp_all add: rtu_deliver_written)

lemma validateResponse_written: "rtu_written (snd (validateResponse m r)) = rtu_written m"
  by (simp add: validateResponse_def rtu_setError_def Let_def)

lemma rtu_poll_written: "rtu_written (snd (rtu_poll m evs)) = rtu_written m"
proof -
  obtain ok m2 where v:
    "validateResponse (rtu_processEvents m evs) (rtu_receiveBuffer (rtu_processEvents m evs))
       = (ok, m2)"
    by (cases "validateResponse (rtu_processEvents m evs)
                 (rtu_receiveBuffer (rtu_processEvents m evs))")
  have "rtu_written m2 = rtu_written m"
    using validateResponse_written [of "rtu_processEvents m evs"
        "rtu_receiveBuffer (rtu_processEvents m evs)"] v
    by (simp add: rtu_processEvents_written)
  then show ?thesis
    using v by (cases ok) (simp_all add: rtu_poll_def Let_def rtu_processEvents_written)
qed

lemma rtu_wait_written: "rtu_written (rtu_wait m ticks) = rtu_written m"
proof (induction ticks arbitrary: m)
  case Nil
  then show ?case by (simp add: rtu_poll_written)
next
  case (Cons evs rest)
  obtain brk m1 where p: "rtu_poll m evs = (brk, m1)"
    by (cases "rtu_poll m evs")
  have "rtu_written m1 = rtu_written m"
    using rtu_poll_written [of m evs] p by simp
  then show ?case
    using p Cons.IH [of m1] by (cases brk) simp_all
qed

lemma sendRequest_written:
  "rtu_isOpen m \<Longrightarrow> rtu_written (snd (sendRequest m request ticks)) = rtu_written m @ [request]"
  by (simp add: sendRequest_def Let_def rtu_wait_written)

lemma crc_read_ten: "calculateCRC16 [0x01, 0x03, 0x00, 0x00, 0x00, 0x0A] = 0xCDC5"
  by code_simp

text \<open>
  C7. \<open>buildRequest\<close> gives the unit address, the function code, the payload, then the
  CRC16 of those bytes, low byte first. On a connected master whose slave address is 1,
  \<open>readHoldingRegisters(0x0000, 10)\<close> writes to the port exactly one request,
  \<open>01 03 00 00 00 0A\<close> followed by the two CRC bytes of those six bytes (\<open>C5 CD\<close>),
  whatever arrives afterwards.
\<close>

theorem rtu_request_frame_format:
  assumes "rtu_isOpen m" and "rtu_slaveAddress m = 1"
  shows "buildRequest m0 fc payload
           = [rtu_slaveAddress m0, fc] @ payload
             @ [lo_byte (calculateCRC16 ([rtu_slaveAddress m0, fc] @ payload)),
                hi_byte (calculateCRC16 ([rtu_slaveAddress m0, fc] @ payload))] \<and>
         rtu_written (snd (readHoldingRegisters m 0x0000 10 ticks))
           = rtu_written m
             @ [[0x01, 0x03, 0x00, 0x00, 0x00, 0x0A]
                @ [lo_byte (calculateCRC16 [0x01, 0x03, 0x00, 0x00, 0x00, 0x0A]),
                   hi_byte (calculateCRC16 [0x01, 0x03, 0x00, 0x00, 0x00, 0x0A])]] \<and>
         [lo_byte (calculateCRC16 [0x01, 0x03, 0x00, 0x00, 0x00, 0x0A]),
          hi_byte (calculateCRC16 [0x01, 0x03, 0x00, 0x00, 0x00, 0x0A])] = [0xC5, 0xCD]"
proof -
  have fmt: "buildRequest m0 fc payload
           = [rtu_slaveAddress m0, fc] @ payload
             @ [lo_byte (calculateCRC16 ([rtu_slaveAddress m0, fc] @ payload)),
                hi_byte (calculateCRC16 ([rtu_slaveAddress m0, fc] @ payload))]"
    by (simp add: buildRequest_def Let_def)
  have payload: "addr_count_bytes 0x0000 10 = [0x00, 0x00, 0x00, 0x0A]"
    by (simp add: addr_count_bytes_def hi_byte_def lo_byte_def)
  have req: "buildRequest m 0x03 (addr_count_bytes 0x0000 10)
           = [0x01, 0x03, 0x00, 0x00, 0x00, 0x0A]
             @ [lo_byte (calculateCRC16 [0x01, 0x03, 0x00, 0x00, 0x00, 0x0A]),
                hi_byte (calculateCRC16 [0x01, 0x03, 0x00, 0x00, 0x00, 0x0A])]"
    using assms(2) by (simp add: buildRequest_def Let_def payload)
  have "(10 :: quint16) \<noteq> 0" and "\<not> unat (10 :: quint16) > 125"
    by simp_all
  then have "rtu_written (snd (readHoldingRegisters m 0x0000 10 ticks))
           = rtu_written (snd (sendRequest m (buildRequest m 0x03 (addr_count_bytes 0x0000 10)) ticks))"
    using assms(1)
    by (simp add: readHoldingRegisters_def Let_def split: prod.splits)
  also have "\<dots> = rtu_written m @ [buildRequest m 0x03 (addr_count_bytes 0x0000 10)]"
    using assms(1) by (rule sendRequest_written)
  finally have sent: "rtu_written (snd (readHoldingRegisters m 0x0000 10 ticks))
           = rtu_written m
             @ [[0x01, 0x03, 0x00, 0x00, 0x00, 0x0A]
                @ [lo_byte (calculateCRC16 [0x01, 0x03, 0x00, 0x00, 0x00, 0x0A]),
                   hi_byte (calculateCRC16 [0x01, 0x03, 0x00, 0x00, 0x00, 0x0A])]]"
    by (simp only: req)
  have bytes: "[lo_byte (calculateCRC16 [0x01, 0x03, 0x00, 0x00, 0x00, 0x0A]),
          hi_byte (calculateCRC16 [0x01, 0x03, 0x00, 0x00, 0x00, 0x0A])] = [0xC5, 0xCD]"
    by (simp add: crc_read_ten lo_byte_def hi_byte_def)
  from fmt sent bytes show ?thesis by (intro conjI)
qed

theorem rtu_request_frame_format_witness:
  "rtu_isOpen connected_rtu_master \<and> rtu_slaveAddress connected_rtu_master = 1 \<and>
   rtu_written (snd (readHoldingRegisters connected_rtu_master 0x0000 10
                       [[ReadyRead [0x01, 0x83]], [TimerTimeout]]))
     = [[0x01, 0x03, 0x00, 0x00, 0x00, 0x0A, 0xC5, 0xCD]]"
proof -
  have op: "rtu_isOpen connected_rtu_master"
    and ad: "rtu_slaveAddress connected_rtu_master = 1"
    and wr: "rtu_written connected_rtu_master = []"
    by (simp_all add: connected_rtu_master_def)
  from rtu_request_frame_format [where m = connected_rtu_master
      and ticks = "[[ReadyRead [0x01, 0x83]], [TimerTimeout]]", OF op ad] op ad wr
  show ?thesis by simp
qed

text \<open>
  C2. A connected master with slave address 1. (i) \<open>readHoldingRegisters(0, 1)\<close>: the
  seven bytes \<open>01 03 02 12 34 00 00\<close> arrive, whose checksum is wrong, so
  \<open>validateResponse\<close> rejects the buffer; then the response timer expires. The call
  returns the register value 0x1234 decoded from that buffer. (ii)
  \<open>writeSingleRegister(0, 1234)\<close>: the single byte \<open>01\<close> arrives, then the timer expires.
  The call returns true.
\<close>

theorem rtu_master_returns_unvalidated_buffer:
  "fst (validateResponse connected_rtu_master [0x01, 0x03, 0x02, 0x12, 0x34, 0x00, 0x00]) = False \<and>
   fst (readHoldingRegisters connected_rtu_master 0 1
          [[ReadyRead [0x01, 0x03, 0x02, 0x12, 0x34, 0x00, 0x00]], [TimerTimeout]]) = [0x1234] \<and>
   fst (writeSingleRegister connected_rtu_master 0 1234 [[ReadyRead [0x01]], [TimerTimeout]])
     = True"
  by code_simp

theorem rtu_master_returns_unvalidated_buffer_witness:
  "rtu_isOpen connected_rtu_master \<and> (1 :: quint16) \<noteq> 0 \<and> \<not> unat (1 :: quint16) > 125 \<and>
   fst (readHoldingRegisters connected_rtu_master 0 1
          [[ReadyRead [0x01, 0x03, 0x02, 0x12, 0x34, 0x00, 0x00]], [TimerTimeout]]) = [0x1234] \<and>
   fst (writeSingleRegister connected_rtu_master 0 1234 [[ReadyRead [0x01]], [TimerTimeout]])
     = True"
proof -
  have "rtu_isOpen connected_rtu_master"
    by (simp add: connected_rtu_master_def)
  with rtu_master_returns_unvalidated_buffer show ?thesis
    by simp
qed

section \<open>Properties of the TCP master\<close>

lemma word_of_bytes_hi_lo: "word_of_bytes (hi_byte w) (lo_byte w) = w"
  unfolding word_of_bytes_def hi_byte_def lo_byte_def ff_mask16
  by (rule bit_word_eqI) (auto simp add: bit_simps dest: bit_imp_le_length)

lemma tcp_validateResponse_mismatch:
  "word_of_bytes (r ! 0) (r ! 1) \<noteq> tid \<Longrightarrow> tcp_validateResponse m r tid = Inr (False, m)"
  by (simp add: tcp_validateResponse_def Let_def)

lemma tcp_validateResponse_accept:
  assumes "8 \<le> length r" "word_of_bytes (r ! 0) (r ! 1) = tid" "r ! 2 = 0" "r ! 3 = 0"
    "r ! 6 = tcp_unitId m" "(r ! 7) AND 0x80 = 0"
  shows "tcp_validateResponse m r tid = Inr (True, m)"
  using assms by (simp add: tcp_validateResponse_def Let_def)

lemma tcp_poll_mismatch:
  assumes "tcp_receiveBuffer (tcp_processEvents m evs) = r"
    and "word_of_bytes (r ! 0) (r ! 1) \<noteq> tid"
  shows "tcp_poll m tid evs = Inr (False, tcp_processEvents m evs)"
  using assms
  by (simp add: tcp_poll_def Let_def tcp_validateResponse_mismatch bind_err_def)

lemma tcp_wait_continues:
  assumes "tcp_waitingForResponse m" "tcp_timerActive m"
    and "tcp_receiveBuffer (tcp_processEvents m evs) = r"
    and "word_of_bytes (r ! 0) (r ! 1) \<noteq> tid"
  shows "tcp_wait m tid (evs # rest) = tcp_wait (tcp_processEvents m evs) tid rest"
  using assms(1,2) tcp_poll_mismatch [OF assms(3,4)]
  by (simp add: bind_err_def)

lemma tcp_sendRequest_completes:
  assumes "tcp_connected m" "tcp_socketPending m = []"
    and "8 \<le> length r" "word_of_bytes (r ! 0) (r ! 1) = tcp_transactionId m - 1"
    "r ! 2 = 0" "r ! 3 = 0" "r ! 6 = tcp_unitId m" "(r ! 7) AND 0x80 = 0"
    and "6 + unat (word_of_bytes (r ! 4) (r ! 5)) \<le> length r"
  shows "tcp_sendRequest m request ([ReadyRead r] # rest)
     = Inr (r, m\<lparr>tcp_receiveBuffer := r, tcp_waitingForResponse := False,
                tcp_timerActive := False, tcp_written := tcp_written m @ [request]\<rparr>)"
proof -
  let ?m3 = "m\<lparr>tcp_receiveBuffer := [], tcp_waitingForResponse := True,
               tcp_written := tcp_written m @ [request], tcp_timerActive := True\<rparr>"
  let ?m4 = "?m3\<lparr>tcp_receiveBuffer := r\<rparr>"
  have ev: "tcp_processEvents ?m3 [ReadyRead r] = ?m4"
    using assms(2) by (simp add: tcp_processEvents_def tcp_onTcpDataReceived_def)
  have "tcp_validateResponse ?m4 r (tcp_transactionId m - 1) = Inr (True, ?m4)"
    using assms(3-8) by (intro tcp_validateResponse_accept) simp_all
  then have "tcp_poll ?m3 (tcp_transactionId m - 1) [ReadyRead r]
      = Inr (True, ?m4\<lparr>tcp_waitingForResponse := False, tcp_timerActive := False\<rparr>)"
    using assms(3,9) by (simp add: tcp_poll_def ev Let_def bind_err_def)
  then have "tcp_wait ?m3 (tcp_transactionId m - 1) ([ReadyRead r] # rest)
      = Inr (?m4\<lparr>tcp_waitingForResponse := False, tcp_timerActive := False\<rparr>)"
    by (simp add: bind_err_def)
  then show ?thesis
    using assms(1) by (simp add: tcp_sendRequest_def Let_def bind_err_def del: tcp_wait.simps)
qed

text \<open>
  What the validation does with one buffer. The TCP master puts its transaction counter
  into the first two bytes of the request it builds and expects that id back. (a) A buffer
  whose first two bytes carry another id is rejected by \<open>validateResponse\<close>, which leaves
  the master as it is, and the waiting loop goes on to its next pass. (b) A buffer of at
  least 8 bytes with the expected id, protocol id 0, the master's unit id and a function
  code whose high bit is clear is accepted by \<open>validateResponse\<close>; when such a response
  is the first thing to arrive in a call, and arrives whole, the loop stops there.
\<close>

theorem tcp_transaction_id_validation:
  "word_of_bytes (fst (tcp_buildRequest m fc payload) ! 0)
                 (fst (tcp_buildRequest m fc payload) ! 1) = tcp_transactionId m \<and>
   (word_of_bytes (other ! 0) (other ! 1) \<noteq> tid \<longrightarrow>
      tcp_validateResponse m other tid = Inr (False, m) \<and>
      (tcp_waitingForResponse mw \<and> tcp_timerActive mw \<and>
       tcp_receiveBuffer (tcp_processEvents mw evs) = other \<longrightarrow>
         tcp_wait mw tid (evs # rest) = tcp_wait (tcp_processEvents mw evs) tid rest)) \<and>
   (8 \<le> length resp \<and> word_of_bytes (resp ! 0) (resp ! 1) = tid \<and> resp ! 2 = 0 \<and> resp ! 3 = 0 \<and>
    resp ! 6 = tcp_unitId m \<and> (resp ! 7) AND 0x80 = 0 \<longrightarrow>
      tcp_validateResponse m resp tid = Inr (True, m) \<and>
      (tcp_connected m \<and> tcp_socketPending m = [] \<and> tid = tcp_transactionId m \<and>
       6 + unat (word_of_bytes (resp ! 4) (resp ! 5)) \<le> length resp \<longrightarrow>
         tcp_writeSingleRegister m a v ([ReadyRead resp] # rest)
           = Inr (True,
                  m\<lparr>tcp_transactionId := tcp_transactionId m + 1, tcp_receiveBuffer := resp,
                    tcp_waitingForResponse := False, tcp_timerActive := False,
                    tcp_written := tcp_written m
                       @ [fst (tcp_buildRequest m 0x06 (addr_count_bytes a v))]\<rparr>)))"
proof (intro conjI impI)
  show "word_of_bytes (fst (tcp_buildRequest m fc payload) ! 0)
                      (fst (tcp_buildRequest m fc payload) ! 1) = tcp_transactionId m"
    by (simp add: tcp_buildRequest_def Let_def word_of_bytes_hi_lo)
next
  assume "word_of_bytes (other ! 0) (other ! 1) \<noteq> tid"
  then show "tcp_validateResponse m other tid = Inr (False, m)"
    by (rule tcp_validateResponse_mismatch)
next
  assume differs: "word_of_bytes (other ! 0) (other ! 1) \<noteq> tid"
    and "tcp_waitingForResponse mw \<and> tcp_timerActive mw \<and>
         tcp_receiveBuffer (tcp_processEvents mw evs) = other"
  then have "tcp_waitingForResponse mw" and "tcp_timerActive mw"
    and "tcp_receiveBuffer (tcp_processEvents mw evs) = other"
    by simp_all
  then show "tcp_wait mw tid (evs # rest) = tcp_wait (tcp_processEvents mw evs) tid rest"
    using differs by (rule tcp_wait_continues)
next
  assume "8 \<le> length resp \<and> word_of_bytes (resp ! 0) (resp ! 1) = tid \<and> resp ! 2 = 0 \<and> resp ! 3 = 0 \<and>
          resp ! 6 = tcp_unitId m \<and> (resp ! 7) AND 0x80 = 0"
  then show "tcp_validateResponse m resp tid = Inr (True, m)"
    by (intro tcp_validateResponse_accept) simp_all
next
  assume match: "8 \<le> length resp \<and> word_of_bytes (resp ! 0) (resp ! 1) = tid \<and> resp ! 2 = 0 \<and>
          resp ! 3 = 0 \<and> resp ! 6 = tcp_unitId m \<and> (resp ! 7) AND 0x80 = 0"
    and call: "tcp_connected m \<and> tcp_socketPending m = [] \<and> tid = tcp_transactionId m \<and>
          6 + unat (word_of_bytes (resp ! 4) (resp ! 5)) \<le> length resp"
  let ?m1 = "m\<lparr>tcp_transactionId := tcp_transactionId m + 1\<rparr>"
  obtain req where built: "tcp_buildRequest m 0x06 (addr_count_bytes a v) = (req, ?m1)"
    by (simp add: tcp_buildRequest_def Let_def)
  have "tcp_sendRequest ?m1 req ([ReadyRead resp] # rest)
     = Inr (resp, ?m1\<lparr>tcp_receiveBuffer := resp, tcp_waitingForResponse := False,
                tcp_timerActive := False, tcp_written := tcp_written ?m1 @ [req]\<rparr>)"
    using match call by (intro tcp_sendRequest_completes) simp_all
  moreover have "resp \<noteq> []"
    using match by auto
  ultimately show "tcp_writeSingleRegister m a v ([ReadyRead resp] # rest)
           = Inr (True,
                  m\<lparr>tcp_transactionId := tcp_transactionId m + 1, tcp_receiveBuffer := resp,
                    tcp_waitingForResponse := False, tcp_timerActive := False,
                    tcp_written := tcp_written m
                       @ [fst (tcp_buildRequest m 0x06 (addr_count_bytes a v))]\<rparr>)"
    using call by (simp add: tcp_writeSingleRegister_def built bind_err_def)
qed

theorem tcp_transaction_id_validation_witness:
  "word_of_bytes (response_with_id 6 ! 0) (response_with_id 6 ! 1)
     \<noteq> tcp_transactionId master_sending_5 \<and>
   word_of_bytes (response_with_id 5 ! 0) (response_with_id 5 ! 1)
     = tcp_transactionId master_sending_5 \<and>
   tcp_connected master_sending_5 \<and>
   6 + unat (word_of_bytes (response_with_id 5 ! 4) (response_with_id 5 ! 5))
     \<le> length (response_with_id 5) \<and>
   tcp_validateResponse master_sending_5 (response_with_id 6) 5 = Inr (False, master_sending_5) \<and>
   tcp_wait (master_sending_5\<lparr>tcp_waitingForResponse := True, tcp_timerActive := True\<rparr>) 5
       [[ReadyRead (response_with_id 6)], []]
     = tcp_wait (master_sending_5\<lparr>tcp_waitingForResponse := True, tcp_timerActive := True,
                                  tcp_receiveBuffer := response_with_id 6\<rparr>) 5 [[]] \<and>
   tcp_validateResponse master_sending_5 (response_with_id 5) 5 = Inr (True, master_sending_5) \<and>
   fst (projr (tcp_writeSingleRegister master_sending_5 0 1234
                 [[ReadyRead (response_with_id 5)], []]))
     = True"
proof -
  let ?m = master_sending_5
  let ?mw = "master_sending_5\<lparr>tcp_waitingForResponse := True, tcp_timerActive := True\<rparr>"
  have tid: "tcp_transactionId ?m = 5" and unit: "tcp_unitId ?m = 1"
    and conn: "tcp_connected ?m" and pend: "tcp_socketPending ?m = []"
    by (simp_all add: master_sending_5_def connected_tcp_master_def)
  have differs: "word_of_bytes (response_with_id 6 ! 0) (response_with_id 6 ! 1)
                 \<noteq> tcp_transactionId ?m"
    by (simp add: tid response_with_id_def word_of_bytes_def)
  have w1: "tcp_waitingForResponse ?mw" and w2: "tcp_timerActive ?mw"
    by simp_all
  have ev: "tcp_processEvents ?mw [ReadyRead (response_with_id 6)]
              = ?mw\<lparr>tcp_receiveBuffer := response_with_id 6\<rparr>"
    by (simp add: tcp_processEvents_def tcp_onTcpDataReceived_def master_sending_5_def
        connected_tcp_master_def)
  then have w3: "tcp_receiveBuffer (tcp_processEvents ?mw [ReadyRead (response_with_id 6)])
              = response_with_id 6"
    by simp
  have len: "8 \<le> length (response_with_id 5)"
    and same: "word_of_bytes (response_with_id 5 ! 0) (response_with_id 5 ! 1)
                 = tcp_transactionId ?m"
    and p2: "response_with_id 5 ! 2 = 0" and p3: "response_with_id 5 ! 3 = 0"
    and u: "response_with_id 5 ! 6 = tcp_unitId ?m"
    and fc: "(response_with_id 5 ! 7) AND 0x80 = 0"
    and whole: "6 + unat (word_of_bytes (response_with_id 5 ! 4) (response_with_id 5 ! 5))
                  \<le> length (response_with_id 5)"
    by (simp_all add: tid unit response_with_id_def word_of_bytes_def)
  from tcp_transaction_id_validation
         [where m = ?m and mw = ?mw and tid = 5 and other = "response_with_id 6"
            and resp = "response_with_id 5" and evs = "[ReadyRead (response_with_id 6)]"
            and rest = "[[]]" and a = 0 and v = 1234 and fc = 6 and payload = "[]"]
       differs w1 w2 w3 conn pend len same p2 p3 u fc whole
  show ?thesis by (simp add: tid ev del: tcp_wait.simps)
qed

text \<open>
  C6. A connected master sends transaction id 5. A response carrying id 6 arrives and is
  not accepted; the wait continues. Then the response carrying id 5 arrives, which
  \<open>validateResponse\<close> accepts when it stands alone. It is appended behind the bytes of the
  rejected response, which are never discarded, and \<open>validateResponse\<close> still reads the
  id at the start of the buffer: the matching response is never accepted, the wait ends
  with the response timer, \<open>Response timeout\<close> is set, and the call returns the whole
  buffer. \<open>writeSingleRegister\<close> returns true all the same, and \<open>readHoldingRegisters\<close>
  returns the register value 0xAAAA of the response with id 6, not the 0x1234 of the
  response with id 5.
\<close>

theorem tcp_matching_response_behind_rejected_one:
  "tcp_validateResponse master_sending_5 (response_with_id 5) 5 = Inr (True, master_sending_5) \<and>
   tcp_validateResponse master_sending_5 (response_with_id 6 @ response_with_id 5) 5
     = Inr (False, master_sending_5) \<and>
   tcp_writeSingleRegister master_sending_5 0 1234
       [[ReadyRead (response_with_id 6)], [ReadyRead (response_with_id 5)], [TimerTimeout]]
     = Inr (True,
            master_sending_5
              \<lparr>tcp_transactionId := 6,
               tcp_receiveBuffer := response_with_id 6 @ response_with_id 5,
               tcp_written :=
                 [[0x00, 0x05, 0x00, 0x00, 0x00, 0x06, 0x01, 0x06, 0x00, 0x00, 0x04, 0xD2]],
               tcp_errors := [ResponseTimeout]\<rparr>) \<and>
   tcp_readHoldingRegisters master_sending_5 0 1
       [[ReadyRead (read_response_with_id 6 0xAAAA)],
        [ReadyRead (read_response_with_id 5 0x1234)], [TimerTimeout]]
     = Inr ([0xAAAA],
            master_sending_5
              \<lparr>tcp_transactionId := 6,
               tcp_receiveBuffer :=
                 read_response_with_id 6 0xAAAA @ read_response_with_id 5 0x1234,
               tcp_written :=
                 [[0x00, 0x05, 0x00, 0x00, 0x00, 0x06, 0x01, 0x03, 0x00, 0x00, 0x00, 0x01]],
               tcp_errors := [ResponseTimeout]\<rparr>)"
  by code_simp

theorem tcp_matching_response_behind_rejected_one_witness:
  "tcp_connected master_sending_5 \<and> tcp_transactionId master_sending_5 = 5 \<and>
   response_with_id 5 ! 2 = 0 \<and> response_with_id 5 ! 3 = 0 \<and>
   tcp_validateResponse master_sending_5 (response_with_id 5) 5 = Inr (True, master_sending_5) \<and>
   tcp_validateResponse master_sending_5 (response_with_id 6 @ response_with_id 5) 5
     = Inr (False, master_sending_5) \<and>
   tcp_errors (snd (projr (tcp_writeSingleRegister master_sending_5 0 1234
       [[ReadyRead (response_with_id 6)], [ReadyRead (response_with_id 5)], [TimerTimeout]])))
     = [ResponseTimeout] \<and>
   fst (projr (tcp_readHoldingRegisters master_sending_5 0 1
       [[ReadyRead (read_response_with_id 6 0xAAAA)],
        [ReadyRead (read_response_with_id 5 0x1234)], [TimerTimeout]]))
     = [0xAAAA]"
proof -
  have "tcp_connected master_sending_5" and "tcp_transactionId master_sending_5 = 5"
    by (simp_all add: master_sending_5_def connected_tcp_master_def)
  moreover have "response_with_id 5 ! 2 = 0" and "response_with_id 5 ! 3 = 0"
    by (simp_all add: response_with_id_def)
  ultimately show ?thesis
    using tcp_matching_response_behind_rejected_one by simp
qed

section \<open>Properties of the CAN receive queue\<close>

lemma drain_append: "drain acc q = acc @ q"
  by (induction q arbitrary: acc) simp_all

lemma store_frame_shape:
  assumes "1 \<le> C" and "m_maxBufferSize s = int C" and "length (m_buffer s) \<le> C"
  shows "\<exists>s'. store_frame s f = Inr s' \<and> m_maxBufferSize s' = int C \<and>
           m_buffer s' = drop (length (m_buffer s @ [f]) - C) (m_buffer s @ [f]) \<and>
           m_droppedCount s' = m_droppedCount s + of_nat (length (m_buffer s @ [f]) - C) \<and>
           m_receivedCount s' = m_receivedCount s"
proof (cases "length (m_buffer s) = C")
  case True
  with assms(1) obtain x rest where b: "m_buffer s = x # rest"
    by (cases "m_buffer s") auto
  with True have k: "length (m_buffer s @ [f]) - C = 1" by simp
  show ?thesis
    using assms(2) True b
    by (simp add: store_frame_def bind_err_def dequeue_def Let_def)
next
  case False
  with assms(3) have lt: "length (m_buffer s) < C" by simp
  then show ?thesis
    using assms(2) by (simp add: store_frame_def bind_err_def Let_def)
qed

lemma receive_frames_shape:
  assumes "1 \<le> C" and "m_maxBufferSize s = int C" and "length (m_buffer s) \<le> C"
  shows "\<exists>s'. receive_frames valid s frames = Inr s' \<and> m_maxBufferSize s' = int C \<and>
           m_buffer s' = drop (length (m_buffer s @ filter valid frames) - C)
                              (m_buffer s @ filter valid frames) \<and>
           m_droppedCount s' = m_droppedCount s
              + of_nat (length (m_buffer s @ filter valid frames) - C) \<and>
           m_receivedCount s' = m_receivedCount s + of_nat (length (filter valid frames))"
  using assms(2,3)
proof (induction frames arbitrary: s)
  case Nil
  then show ?case by simp
next
  case (Cons f frames)
  show ?case
  proof (cases "valid f")
    case False
    then show ?thesis
      using Cons.IH [OF Cons.prems] by (simp add: receive_frame_def bind_err_def)
  next
    case True
    let ?s0 = "s\<lparr>m_receivedCount := m_receivedCount s + 1\<rparr>"
    let ?b = "m_buffer s"
    let ?vs = "filter valid frames"
    let ?k = "length (?b @ [f]) - C"
    have "m_maxBufferSize ?s0 = int C" and "length (m_buffer ?s0) \<le> C"
      using Cons.prems by simp_all
    from store_frame_shape [OF assms(1) this, of f]
    obtain s1 where s1: "store_frame ?s0 f = Inr s1" "m_maxBufferSize s1 = int C"
      "m_buffer s1 = drop ?k (?b @ [f])"
      "m_droppedCount s1 = m_droppedCount s + of_nat ?k"
      "m_receivedCount s1 = m_receivedCount s + 1"
      by auto
    have len1: "length (m_buffer s1) \<le> C"
      using s1(3) Cons.prems(2) by simp
    from Cons.IH [OF s1(2) len1]
    obtain s' where s': "receive_frames valid s1 frames = Inr s'" "m_maxBufferSize s' = int C"
      "m_buffer s' = drop (length (m_buffer s1 @ ?vs) - C) (m_buffer s1 @ ?vs)"
      "m_droppedCount s' = m_droppedCount s1 + of_nat (length (m_buffer s1 @ ?vs) - C)"
      "m_receivedCount s' = m_receivedCount s1 + of_nat (length ?vs)"
      by auto
    have run: "receive_frames valid s (f # frames) = Inr s'"
      using True s1(1) s'(1) by (simp add: receive_frame_def bind_err_def)
    define n1 where "n1 = length (m_buffer s1 @ ?vs) - C"
    have cat: "m_buffer s1 @ ?vs = drop ?k (?b @ f # ?vs)"
      using s1(3) assms(1) by simp
    have idx: "n1 + ?k = length (?b @ f # ?vs) - C"
      unfolding n1_def using Cons.prems(2) s1(3) by (cases "length ?b = C") auto
    have "m_buffer s' = drop n1 (m_buffer s1 @ ?vs)"
      using s'(3) by (simp only: n1_def)
    also have "\<dots> = drop n1 (drop ?k (?b @ f # ?vs))"
      by (simp only: cat)
    also have "\<dots> = drop (n1 + ?k) (?b @ f # ?vs)"
      by (simp only: drop_drop)
    finally have buf: "m_buffer s' = drop (length (?b @ f # ?vs) - C) (?b @ f # ?vs)"
      by (simp only: idx)
    have "m_droppedCount s' = m_droppedCount s + of_nat (n1 + ?k)"
      using s'(4) s1(4) by (simp add: n1_def)
    then have drp: "m_droppedCount s' = m_droppedCount s + of_nat (length (?b @ f # ?vs) - C)"
      by (simp only: idx)
    have rcv: "m_receivedCount s' = m_receivedCount s + of_nat (length (f # ?vs))"
      using s'(5) s1(5) by simp
    show ?thesis
      using True run s'(2) buf drp rcv by simp
  qed
qed

text \<open>
  Capacities of at least 1. Into an initially empty queue of capacity \<open>C \<ge> 1\<close> the thread
  stores the valid frames of \<open>frames\<close> one at a time; let \<open>N > C\<close> be their number. The
  run succeeds, exactly \<open>C\<close> frames are buffered, the dropped counter is \<open>N - C\<close> (as the
  \<open>quint64\<close> it is), the buffer holds the last \<open>C\<close> valid frames in arrival order, and
  \<open>readAllFrames\<close> returns them in that order.
\<close>

theorem can_queue_keeps_newest:
  assumes "1 \<le> C" and "C < length (filter valid frames)"
  shows "\<exists>s. receive_frames valid (setMaxBufferSize CANReceiveThread (int C)) frames = Inr s \<and>
             getBufferedFrameCount s = C \<and>
             getDroppedCount s = of_nat (length (filter valid frames) - C) \<and>
             unat (getDroppedCount s) = (length (filter valid frames) - C) mod 2 ^ 64 \<and>
             m_buffer s = drop (length (filter valid frames) - C) (filter valid frames) \<and>
             fst (readAllFrames s) = drop (length (filter valid frames) - C) (filter valid frames)"
proof -
  let ?s0 = "setMaxBufferSize (CANReceiveThread :: 'a can_thread) (int C)"
  let ?vs = "filter valid frames"
  have "m_maxBufferSize ?s0 = int C" and "length (m_buffer ?s0) \<le> C"
    by (simp_all add: setMaxBufferSize_def CANReceiveThread_def)
  from receive_frames_shape [OF assms(1) this, of valid frames]
  obtain s where s: "receive_frames valid ?s0 frames = Inr s"
    "m_buffer s = drop (length ?vs - C) ?vs"
    "m_droppedCount s = of_nat (length ?vs - C)"
    by (auto simp add: setMaxBufferSize_def CANReceiveThread_def)
  have cnt: "getBufferedFrameCount s = C"
    using s(2) assms(2) by (simp add: getBufferedFrameCount_def)
  have drp: "getDroppedCount s = of_nat (length ?vs - C)"
    using s(3) by (simp add: getDroppedCount_def)
  have num: "unat (getDroppedCount s) = (length ?vs - C) mod 2 ^ 64"
    by (simp only: drp unat_of_nat) simp
  have rd: "fst (readAllFrames s) = drop (length ?vs - C) ?vs"
    using s(2) by (simp add: readAllFrames_def drain_append)
  from s(1) cnt drp num s(2) rd show ?thesis by blast
qed

theorem can_queue_keeps_newest_witness:
  "(1 :: nat) \<le> 2 \<and> 2 < length (filter every_frame_valid [10, 20, 30]) \<and>
   (\<exists>s. receive_frames every_frame_valid (setMaxBufferSize CANReceiveThread (int 2)) [10, 20, 30]
          = Inr s \<and>
        getBufferedFrameCount s = 2 \<and> unat (getDroppedCount s) = 1 \<and>
        fst (readAllFrames s) = [20, 30])"
proof -
  have c: "(1 :: nat) \<le> 2" by simp
  have n: "2 < length (filter every_frame_valid [10, 20, 30])"
    by (simp add: every_frame_valid_def)
  have vs: "filter every_frame_valid [10, 20, 30] = [10, 20, 30]"
    by (simp add: every_frame_valid_def)
  from can_queue_keeps_newest [OF c n]
  obtain s where s:
    "receive_frames every_frame_valid (setMaxBufferSize CANReceiveThread (int 2)) [10, 20, 30]
       = Inr s"
    "getBufferedFrameCount s = 2"
    "unat (getDroppedCount s) = (length (filter every_frame_valid [10, 20, 30]) - 2) mod 2 ^ 64"
    "fst (readAllFrames s)
       = drop (length (filter every_frame_valid [10, 20, 30]) - 2)
           (filter every_frame_valid [10, 20, 30])"
    by blast
  have "unat (getDroppedCount s) = 1" and "fst (readAllFrames s) = [20, 30]"
    using s(3,4) unfolding vs by simp_all
  with s(1,2) c n show ?thesis by blast
qed


section \<open>Properties of the serial read buffer\<close>

lemma to_int32_small: "0 \<le> k \<Longrightarrow> k < 2 ^ 31 \<Longrightarrow> to_int32 k = k"
  unfolding to_int32_def by (rule signed_take_bit_int_eq_self) simp_all

lemma sdiv_two_nonneg: "0 \<le> (k :: int) \<Longrightarrow> k sdiv 2 = k div 2"
  by (simp add: signed_divide_int_def sgn_if)


text \<open>
  C8. The driver has a port, the cap is \<open>M \<ge> 0\<close>, and \<open>readAll\<close> returned the non-empty
  \<open>data\<close>, which is appended (a byte array has fewer than \<open>2^31\<close> bytes). If the
  size then exceeds \<open>M\<close>, the buffer becomes exactly the last \<open>M div 2\<close> bytes of the
  concatenation and one overflow warning is raised; otherwise the buffer is the
  concatenation and no warning is raised. The constructor sets the cap to 65536.
\<close>

theorem read_buffer_overflow_keeps_newest_half:
  assumes "has_port s" and "data \<noteq> []" and "0 \<le> M" and "m_readBufferMaxSize s = M"
    and "length (m_readBuffer s @ data) < 2 ^ 31"
  shows "(int (length (m_readBuffer s @ data)) > M \<longrightarrow>
            m_readBuffer (onReadyRead s data)
              = drop (length (m_readBuffer s @ data) - nat (M div 2)) (m_readBuffer s @ data) \<and>
            int (length (m_readBuffer (onReadyRead s data))) = M div 2 \<and>
            overflow_warnings (onReadyRead s data) = overflow_warnings s + 1) \<and>
         (int (length (m_readBuffer s @ data)) \<le> M \<longrightarrow>
            m_readBuffer (onReadyRead s data) = m_readBuffer s @ data \<and>
            overflow_warnings (onReadyRead s data) = overflow_warnings s) \<and>
         m_readBufferMaxSize DriverSerial = 65536"
proof (intro conjI impI)
  show "m_readBufferMaxSize DriverSerial = 65536"
    by (simp add: DriverSerial_def)
next
  assume over: "int (length (m_readBuffer s @ data)) > M"
  let ?all = "m_readBuffer s @ data"
  have half: "M sdiv 2 = M div 2"
    using assms(3) by (rule sdiv_two_nonneg)
  have small: "M div 2 < 2 ^ 31"
    using over assms(3,5) by simp
  have conv: "to_int32 (M sdiv 2) = M div 2"
    using assms(3) small by (simp add: half to_int32_small)
  have lt: "M div 2 < int (length ?all)"
    using over assms(3) by simp
  have nonneg: "0 \<le> M div 2"
    using assms(3) by simp
  have keep: "right ?all (M div 2) = drop (length ?all - nat (M div 2)) ?all"
    using lt nonneg by (simp add: right_def)
  show buf: "m_readBuffer (onReadyRead s data) = drop (length ?all - nat (M div 2)) ?all"
    using assms(1,2,4) over by (simp add: onReadyRead_def Let_def conv keep)
  show "int (length (m_readBuffer (onReadyRead s data))) = M div 2"
    using lt nonneg by (simp add: buf)
  show "overflow_warnings (onReadyRead s data) = overflow_warnings s + 1"
    using assms(1,2,4) over by (simp add: onReadyRead_def Let_def)
next
  assume fits: "int (length (m_readBuffer s @ data)) \<le> M"
  show "m_readBuffer (onReadyRead s data) = m_readBuffer s @ data"
    using assms(1,2,4) fits by (simp add: onReadyRead_def Let_def)
  show "overflow_warnings (onReadyRead s data) = overflow_warnings s"
    using assms(1,2,4) fits by (simp add: onReadyRead_def Let_def)
qed


theorem read_buffer_overflow_keeps_newest_half_witness:
  "has_port ((setReadBufferSize DriverSerial 4)\<lparr>m_readBuffer := [1, 2, 3]\<rparr>) \<and>
   [4, 5 :: quint8] \<noteq> [] \<and> (0 :: int) \<le> 4 \<and>
   m_readBufferMaxSize ((setReadBufferSize DriverSerial 4)\<lparr>m_readBuffer := [1, 2, 3]\<rparr>) = 4 \<and>
   length ([1, 2, 3] @ [4, 5 :: quint8]) < 2 ^ 31 \<and>
   int (length ([1, 2, 3] @ [4, 5 :: quint8])) > 4 \<and>
   m_readBuffer (onReadyRead ((setReadBufferSize DriverSerial 4)\<lparr>m_readBuffer := [1, 2, 3]\<rparr>)
                   [4, 5]) = [4, 5] \<and>
   overflow_warnings (onReadyRead ((setReadBufferSize DriverSerial 4)\<lparr>m_readBuffer := [1, 2, 3]\<rparr>)
                        [4, 5]) = 1 \<and>
   [4 :: quint8] \<noteq> [] \<and> int (length ([1, 2, 3] @ [4 :: quint8])) \<le> 4 \<and>
   m_readBuffer (onReadyRead ((setReadBufferSize DriverSerial 4)\<lparr>m_readBuffer := [1, 2, 3]\<rparr>)
                   [4]) = [1, 2, 3, 4] \<and>
   overflow_warnings (onReadyRead ((setReadBufferSize DriverSerial 4)\<lparr>m_readBuffer := [1, 2, 3]\<rparr>)
                        [4]) = 0"
proof -
  let ?s = "(setReadBufferSize DriverSerial 4)\<lparr>m_readBuffer := [1, 2, 3]\<rparr>"
  have port: "has_port ?s" and cap: "m_readBufferMaxSize ?s = 4"
    and buf: "m_readBuffer ?s = [1, 2, 3]" and warn: "overflow_warnings ?s = 0"
    by (simp_all add: setReadBufferSize_def DriverSerial_def)
  have d2: "[4, 5 :: quint8] \<noteq> []" and d1: "[4 :: quint8] \<noteq> []" and m: "(0 :: int) \<le> 4"
    by simp_all
  have l2: "length (m_readBuffer ?s @ [4, 5]) < 2 ^ 31"
    and l1: "length (m_readBuffer ?s @ [4]) < 2 ^ 31"
    by (simp_all add: buf)
  from read_buffer_overflow_keeps_newest_half [OF port d2 m cap l2]
       read_buffer_overflow_keeps_newest_half [OF port d1 m cap l1]
       port cap
  show ?thesis by (simp add: buf warn)
qed


end
